theory Spec2Isabelle
  imports Complex_Main "HOL-Library.Sublist"
begin

section \<open>Strings of code points\<close>

text \<open>
  A Python \<open>str\<close> is a sequence of Unicode code points, and \<open>len\<close>, \<open>count\<close>,
  \<open>replace\<close> and the \<open>re\<close> module all work on code points. A text is therefore a list of
  natural numbers, one per code point. \<open>ascii\<close> writes an ASCII literal of the source as
  such a list.
\<close>

type_synonym codepoint = nat
type_synonym str = "codepoint list"

definition ascii :: "string \<Rightarrow> str" where
  "ascii s = map of_char s"

text \<open>
  \<open>str.isspace\<close> and the class \<open>\s\<close> of \<open>re\<close> (on \<open>str\<close> patterns) are the same
  fixed set of code points in CPython.
\<close>

definition isspace :: "codepoint \<Rightarrow> bool" where
  "isspace c \<longleftrightarrow>
     (9 \<le> c \<and> c \<le> 13) \<or> (28 \<le> c \<and> c \<le> 32) \<or> c = 133 \<or> c = 160 \<or> c = 5760 \<or>
     (8192 \<le> c \<and> c \<le> 8202) \<or> c = 8232 \<or> c = 8233 \<or> c = 8239 \<or> c = 8287 \<or> c = 12288"

text \<open>
  The remaining character tables belong to the Unicode database of the interpreter and to
  the \<open>unidecode\<close> package, neither of which is part of the repository. They are
  parameters of the model:
  \<^item> \<open>isalnum\<close>: \<open>str.isalnum\<close> on one character; \<open>\w\<close> is \<open>isalnum\<close> or the underscore;
  \<^item> \<open>isdecimal\<close>: the class \<open>\d\<close>;
  \<^item> \<open>lower\<close>: \<open>str.lower\<close> on a whole string;
  \<^item> \<open>unidecode\<close>: the transliteration of a string to ASCII.
\<close>

record unicode_tables =
  isalnum :: "codepoint \<Rightarrow> bool"
  isdecimal :: "codepoint \<Rightarrow> bool"
  lower :: "str \<Rightarrow> str"
  unidecode :: "str \<Rightarrow> str"

text \<open>
  For closed examples: the tables as CPython has them on the code points below 256. No
  code point from 256 on is classified as alphanumeric or changed by \<open>lower\<close> here, which
  is what CPython does for the few such code points the examples use (U+FFFD, U+20AC,
  U+200B). \<open>unidecode\<close> is the identity on ASCII, as in the package.
\<close>

definition latin1_isalnum :: "codepoint \<Rightarrow> bool" where
  "latin1_isalnum c \<longleftrightarrow>
     (48 \<le> c \<and> c \<le> 57) \<or> (65 \<le> c \<and> c \<le> 90) \<or> (97 \<le> c \<and> c \<le> 122) \<or>
     c = 170 \<or> c = 178 \<or> c = 179 \<or> c = 181 \<or> c = 185 \<or> c = 186 \<or>
     (188 \<le> c \<and> c \<le> 190) \<or> (192 \<le> c \<and> c \<le> 214) \<or> (216 \<le> c \<and> c \<le> 246) \<or>
     (248 \<le> c \<and> c \<le> 255)"

definition latin1_lower_char :: "codepoint \<Rightarrow> codepoint" where
  "latin1_lower_char c =
     (if (65 \<le> c \<and> c \<le> 90) \<or> (192 \<le> c \<and> c \<le> 214) \<or> (216 \<le> c \<and> c \<le> 222)
      then c + 32 else c)"

definition latin1_tables :: unicode_tables where
  "latin1_tables = \<lparr> isalnum = latin1_isalnum,
                      isdecimal = (\<lambda>c. 48 \<le> c \<and> c \<le> 57),
                      lower = map latin1_lower_char,
                      unidecode = filter (\<lambda>c. c < 128) \<rparr>"

subsection \<open>\<open>str.count\<close> and \<open>str.replace\<close>\<close>

text \<open>
  \<open>text.count(sub)\<close> counts the non-overlapping occurrences of \<open>sub\<close>, scanning from the
  left; for the empty \<open>sub\<close> it is \<open>len(text) + 1\<close>.
\<close>

function count_from :: "str \<Rightarrow> str \<Rightarrow> nat" where
  "count_from sub [] = 0"
| "count_from sub (c # cs) =
     (if sub \<noteq> [] \<and> prefix sub (c # cs)
      then Suc (count_from sub (drop (length sub) (c # cs)))
      else count_from sub cs)"
  by pat_completeness auto
termination
  by (relation "measure (\<lambda>(sub, text). length text)") (auto simp: Suc_le_eq)

definition str_count :: "str \<Rightarrow> str \<Rightarrow> nat" where
  "str_count text sub = (if sub = [] then length text + 1 else count_from sub text)"

text \<open>
  \<open>text.replace(old, new)\<close> replaces the non-overlapping occurrences of \<open>old\<close> from the
  left; for the empty \<open>old\<close> it puts \<open>new\<close> before every character and at the end.
\<close>

function replace_from :: "str \<Rightarrow> str \<Rightarrow> str \<Rightarrow> str" where
  "replace_from old new [] = []"
| "replace_from old new (c # cs) =
     (if old \<noteq> [] \<and> prefix old (c # cs)
      then new @ replace_from old new (drop (length old) (c # cs))
      else c # replace_from old new cs)"
  by pat_completeness auto
termination
  by (relation "measure (\<lambda>(old, new, text). length text)") (auto simp: Suc_le_eq)

definition str_replace :: "str \<Rightarrow> str \<Rightarrow> str \<Rightarrow> str" where
  "str_replace text old new =
     (if old = [] then concat (map (\<lambda>c. new @ [c]) text) @ new else replace_from old new text)"

section \<open>The quality scorer\<close>

text \<open>
  \<open>_evaluate_text_quality\<close>. The local variables of the source are definitions of their
  own, so that statements can name them. Python's floats are taken as exact rationals:
  \<open>0.6\<close> is \<open>6/10\<close>, and \<open>/\<close> is exact division. The list of problem characters is the
  one of the source, whose first and third entries are both U+FFFD (the first written as
  the character itself, the third as its escape).
\<close>

definition punctuation :: str where
  "punctuation = ascii '',.;:!?()[]{}@#$%&*_+-=/''"

definition valid_chars :: "unicode_tables \<Rightarrow> str \<Rightarrow> nat" where
  "valid_chars U text =
     length (filter (\<lambda>c. isalnum U c \<or> isspace c \<or> c \<in> set punctuation) text)"

definition valid_ratio :: "unicode_tables \<Rightarrow> str \<Rightarrow> rat" where
  "valid_ratio U text = of_nat (valid_chars U text) / of_nat (length text)"

definition space_ratio :: "str \<Rightarrow> rat" where
  "space_ratio text = of_nat (str_count text (ascii '' '')) / of_nat (length text)"

definition problem_markers :: "str list" where
  "problem_markers = [[65533], [0], [65533]]"

definition problem_chars :: "str \<Rightarrow> nat" where
  "problem_chars text = sum_list (map (str_count text) problem_markers)"

definition problem_ratio :: "str \<Rightarrow> rat" where
  "problem_ratio text = of_nat (problem_chars text) / of_nat (length text)"

definition space_bonus :: "str \<Rightarrow> rat" where
  "space_bonus text = (if 1 / 10 < space_ratio text \<and> space_ratio text < 3 / 10 then 1 / 10 else 0)"

definition evaluate_text_quality :: "unicode_tables \<Rightarrow> str \<Rightarrow> rat" where
  "evaluate_text_quality U text =
     (if length text < 100 then 0
      else valid_ratio U text * (6 / 10) + space_bonus text * (2 / 10) +
           (1 - min (problem_ratio text * 10) 1) * (2 / 10))"

section \<open>The language detector\<close>

datatype language = Auto | Portuguese | English | Unknown

definition pt_words :: "str list" where
  "pt_words = map ascii [''o'', ''a'', ''de'', ''que'', ''e'']"

definition en_words :: "str list" where
  "en_words = map ascii [''the'', ''and'', ''of'', ''to'', ''in'']"

definition pt_indicators :: "unicode_tables \<Rightarrow> str \<Rightarrow> nat" where
  "pt_indicators U text = sum_list (map (str_count (lower U text)) pt_words)"

definition en_indicators :: "unicode_tables \<Rightarrow> str \<Rightarrow> nat" where
  "en_indicators U text = sum_list (map (str_count (lower U text)) en_words)"

definition detect_language :: "unicode_tables \<Rightarrow> str \<Rightarrow> language" where
  "detect_language U text =
     (if pt_indicators U text > en_indicators U text then Portuguese
      else if en_indicators U text > pt_indicators U text then English
      else Unknown)"

section \<open>Regular expressions\<close>

text \<open>
  The patterns of the source are kept as patterns. \<open>re_t\<close> is the fragment of the syntax
  of \<open>re\<close> that the source uses, and \<open>matches\<close> is a backtracking matcher in the order of
  \<open>re\<close>: the alternatives of \<open>|\<close> from the left, a greedy \<open>*\<close> (one more iteration before
  none). A matcher state is the character before the position (for \<open>\b\<close>), the rest of the
  text, and the groups captured so far, the latest first. \<open>matches r st\<close> lists, in that
  order, the states in which a match of \<open>r\<close> from \<open>st\<close> can end; \<open>re\<close> takes the first. An
  iteration of \<open>*\<close> that consumes nothing ends the repetition; no pattern of the source
  has such an iteration.
\<close>

datatype re_t =
    Eps
  | Cls "codepoint \<Rightarrow> bool"
  | Seq re_t re_t
  | Alt re_t re_t
  | Star re_t
  | Group nat re_t
  | WordB "codepoint \<Rightarrow> bool"

type_synonym mstate = "codepoint option \<times> str \<times> (nat \<times> str) list"

function matches :: "re_t \<Rightarrow> mstate \<Rightarrow> mstate list" where
  "matches Eps st = [st]"
| "matches (Cls P) (p, s, g) =
     (case s of [] \<Rightarrow> [] | c # cs \<Rightarrow> if P c then [(Some c, cs, g)] else [])"
| "matches (Seq r1 r2) st = concat (map (matches r2) (matches r1 st))"
| "matches (Alt r1 r2) st = matches r1 st @ matches r2 st"
| "matches (Star r) (p, s, g) =
     concat (map (\<lambda>st'. if length (fst (snd st')) < length s then matches (Star r) st' else [])
                 (matches r (p, s, g))) @ [(p, s, g)]"
| "matches (Group n r) (p, s, g) =
     map (\<lambda>(p', s', g'). (p', s', (n, take (length s - length s') s) # g'))
         (matches r (p, s, g))"
| "matches (WordB W) (p, s, g) =
     (if (case p of None \<Rightarrow> False | Some c \<Rightarrow> W c) \<noteq> (case s of [] \<Rightarrow> False | c # _ \<Rightarrow> W c)
      then [(p, s, g)] else [])"
  by pat_completeness auto
termination
  by (relation "measures [\<lambda>(r, st). size r, \<lambda>(r, p, s, g). length s]") auto

definition chr :: "codepoint \<Rightarrow> re_t" where
  "chr c = Cls (\<lambda>x. x = c)"

definition lit :: "str \<Rightarrow> re_t" where
  "lit s = foldr (\<lambda>c r. Seq (chr c) r) s Eps"

definition plus :: "re_t \<Rightarrow> re_t" where
  "plus r = Seq r (Star r)"

definition opt :: "re_t \<Rightarrow> re_t" where
  "opt r = Alt r Eps"

definition seqs :: "re_t list \<Rightarrow> re_t" where
  "seqs rs = foldr Seq rs Eps"

definition one_of :: "str \<Rightarrow> re_t" where
  "one_of s = Cls (\<lambda>c. c \<in> set s)"

definition word :: "unicode_tables \<Rightarrow> codepoint \<Rightarrow> bool" where
  "word U c \<longleftrightarrow> isalnum U c \<or> c = 95"

text \<open>
  A replacement template is a list of literal pieces and group references.
  \<open>re.sub(pattern, repl, text)\<close> looks for the leftmost match from the current position,
  copies the text before it, writes the expanded template and goes on after the match;
  after an empty match it copies one character. \<open>re.findall\<close> (for a pattern without
  groups) collects the matched pieces in the same way.
\<close>

datatype tpl = TLit str | TGroup nat

definition expand :: "tpl list \<Rightarrow> (nat \<times> str) list \<Rightarrow> str" where
  "expand t g =
     concat (map (\<lambda>x. case x of TLit s \<Rightarrow> s
                          | TGroup n \<Rightarrow> (case map_of g n of None \<Rightarrow> [] | Some s \<Rightarrow> s)) t)"

function re_sub_from :: "re_t \<Rightarrow> tpl list \<Rightarrow> codepoint option \<Rightarrow> str \<Rightarrow> str" where
  "re_sub_from r t p [] =
     (case matches r (p, [], []) of [] \<Rightarrow> [] | (p', s', g) # _ \<Rightarrow> expand t g)"
| "re_sub_from r t p (c # cs) =
     (case matches r (p, c # cs, []) of
        [] \<Rightarrow> c # re_sub_from r t (Some c) cs
      | (p', s', g) # _ \<Rightarrow>
          if length s' < length (c # cs)
          then expand t g @ re_sub_from r t p' s'
          else expand t g @ c # re_sub_from r t (Some c) cs)"
  by pat_completeness auto
termination
  by (relation "measure (\<lambda>(r, t, p, s). length s)") auto

definition re_sub :: "re_t \<Rightarrow> tpl list \<Rightarrow> str \<Rightarrow> str" where
  "re_sub r t text = re_sub_from r t None text"

function re_findall_from :: "re_t \<Rightarrow> codepoint option \<Rightarrow> str \<Rightarrow> str list" where
  "re_findall_from r p [] = (case matches r (p, [], []) of [] \<Rightarrow> [] | _ # _ \<Rightarrow> [[]])"
| "re_findall_from r p (c # cs) =
     (case matches r (p, c # cs, []) of
        [] \<Rightarrow> re_findall_from r (Some c) cs
      | (p', s', g) # _ \<Rightarrow>
          if length s' < length (c # cs)
          then take (length (c # cs) - length s') (c # cs) # re_findall_from r p' s'
          else [] # re_findall_from r (Some c) cs)"
  by pat_completeness auto
termination
  by (relation "measure (\<lambda>(r, p, s). length s)") auto

definition re_findall :: "re_t \<Rightarrow> str \<Rightarrow> str list" where
  "re_findall r text = re_findall_from r None text"

section \<open>The sanitizer\<close>

text \<open>
  \<open>sanitize_text\<close>, one definition per statement of the source.
  \<open>s.encode('utf-8', 'ignore').decode('utf-8', 'ignore')\<close> on a \<open>str\<close> drops the
  surrogate code points (the only ones UTF-8 cannot encode) and returns the rest as it is.
\<close>

definition is_control :: "codepoint \<Rightarrow> bool" where
  "is_control c \<longleftrightarrow> c \<le> 31 \<or> (127 \<le> c \<and> c \<le> 159)"

definition strip_controls :: "str \<Rightarrow> str" where
  "strip_controls text = re_sub (Cls is_control) [] text"

definition is_surrogate :: "codepoint \<Rightarrow> bool" where
  "is_surrogate c \<longleftrightarrow> 55296 \<le> c \<and> c \<le> 57343"

definition encode_decode_utf8_ignore :: "str \<Rightarrow> str" where
  "encode_decode_utf8_ignore s = filter (\<lambda>c. \<not> is_surrogate c) s"

definition sanitize_replacements :: "(str \<times> str) list" where
  "sanitize_replacements = [([65533], []), ([173], []), ([8203], [])]"

definition apply_replacements :: "(str \<times> str) list \<Rightarrow> str \<Rightarrow> str" where
  "apply_replacements m text = foldl (\<lambda>s (old, new). str_replace s old new) text m"

definition collapse_whitespace :: "str \<Rightarrow> str" where
  "collapse_whitespace s = re_sub (plus (Cls isspace)) [TLit (ascii '' '')] s"

definition blank_lines :: re_t where
  "blank_lines = Seq (chr 10) (Seq (chr 10) (plus (chr 10)))"

definition collapse_blank_lines :: "str \<Rightarrow> str" where
  "collapse_blank_lines s = re_sub blank_lines [TLit [10, 10]] s"

definition sanitize_text :: "str \<Rightarrow> str" where
  "sanitize_text text =
     collapse_blank_lines
       (collapse_whitespace
          (apply_replacements sanitize_replacements
             (encode_decode_utf8_ignore (strip_controls text))))"

section \<open>The processor state\<close>

text \<open>
  The attributes of \<open>UniversalPDFProcessor\<close>. A \<open>Counter\<close> and a \<open>dict\<close> keep their keys
  in the order of first insertion, which is the order the loops of the source run in, so
  both are association lists with one entry per key.
\<close>

record processor =
  error_patterns :: "(str \<times> nat) list"
  correction_map :: "(str \<times> str) list"
  detected_encoding :: "str option"
  language :: language
  sanitization_attempted :: bool

definition init :: processor where
  "init = \<lparr> error_patterns = [], correction_map = [], detected_encoding = None,
            language = Auto, sanitization_attempted = False \<rparr>"

fun counter_add :: "(str \<times> nat) list \<Rightarrow> str \<Rightarrow> (str \<times> nat) list" where
  "counter_add [] k = [(k, 1)]"
| "counter_add ((k', n) # c) k = (if k' = k then (k', n + 1) # c else (k', n) # counter_add c k)"

definition counter_update :: "(str \<times> nat) list \<Rightarrow> str list \<Rightarrow> (str \<times> nat) list" where
  "counter_update c ks = foldl counter_add c ks"

fun dict_set :: "(str \<times> str) list \<Rightarrow> str \<Rightarrow> str \<Rightarrow> (str \<times> str) list" where
  "dict_set [] k v = [(k, v)]"
| "dict_set ((k', v') # d) k v = (if k' = k then (k', v) # d else (k', v') # dict_set d k v)"

section \<open>What the program calls outside the repository\<close>

text \<open>
  The exceptions are those below \<open>Exception\<close>, which is what the handlers of the source
  catch. The libraries and the file system are parameters:
  \<^item> \<open>path_exists\<close>: \<open>os.path.exists\<close>;
  \<^item> \<open>fitz_pages\<close>, \<open>pdfplumber_pages\<close>: the body of the \<open>try\<close> of each extractor, the
    page texts each followed by a newline, or the exception it raises;
  \<^item> \<open>chardet_detect\<close>: the \<open>'encoding'\<close> entry of \<open>chardet.detect\<close> on a byte string;
  \<^item> \<open>encode_ignore\<close>: \<open>text.encode(codec, errors='ignore')\<close> for a codec name, which
    raises for an unknown name;
  \<^item> \<open>decode_utf8_ignore\<close>: \<open>bytes.decode('utf-8', errors='ignore')\<close>;
  \<^item> \<open>docling\<close>: writing the staged text to a temporary \<open>.md\<close> file, converting it with
    \<open>DocumentConverter\<close> and exporting markdown, or the exception one of these raises;
  \<^item> \<open>writable\<close>: whether \<open>open(path, "w")\<close> succeeds.
\<close>

datatype exn = UnicodeEncodeError | LookupError | OSError | OtherException

record env =
  path_exists :: "str \<Rightarrow> bool"
  fitz_pages :: "str \<Rightarrow> exn + str"
  pdfplumber_pages :: "str \<Rightarrow> exn + str"
  chardet_detect :: "nat list \<Rightarrow> str option"
  encode_ignore :: "str \<Rightarrow> str \<Rightarrow> exn + nat list"
  decode_utf8_ignore :: "nat list \<Rightarrow> str"
  docling :: "str \<Rightarrow> exn + str"
  writable :: "str \<Rightarrow> bool"

text \<open>
  \<open>text.encode('utf-8', errors='replace')\<close> and \<open>text.encode('latin1', errors='replace')\<close>:
  a code point the codec cannot encode becomes a question mark.
\<close>

definition utf8_bytes :: "codepoint \<Rightarrow> nat list" where
  "utf8_bytes c =
     (if c < 128 then [c]
      else if c < 2048 then [192 + c div 64, 128 + c mod 64]
      else if is_surrogate c then [63]
      else if c < 65536 then [224 + c div 4096, 128 + c div 64 mod 64, 128 + c mod 64]
      else [240 + c div 262144, 128 + c div 4096 mod 64, 128 + c div 64 mod 64, 128 + c mod 64])"

definition encode_utf8_replace :: "str \<Rightarrow> nat list" where
  "encode_utf8_replace text = concat (map utf8_bytes text)"

definition encode_latin1_replace :: "str \<Rightarrow> nat list" where
  "encode_latin1_replace text = map (\<lambda>c. if c < 256 then c else 63) text"

section \<open>The error analyzer\<close>

definition invalid_char :: "unicode_tables \<Rightarrow> re_t" where
  "invalid_char U =
     Cls (\<lambda>c. \<not> (word U c \<or> isspace c \<or>
                  c \<in> set (ascii ''.,;:?!@#$%&*()_+=-[]{}|<>/'' @ [92, 34, 39]) \<or>
                  (192 \<le> c \<and> c \<le> 255)))"

definition pt_error :: re_t where
  "pt_error =
     Alt (Seq (chr 195) (one_of [231, 227, 225, 233, 243, 245, 234, 226, 224, 250, 237]))
    (Alt (lit (ascii ''P'' @ [238] @ ascii ''S''))
    (Alt (lit (ascii ''Gradua,'' @ [204] @ ascii ''O''))
         (lit (ascii ''CAP'' @ [234] @ ascii ''TULO''))))"

definition en_error :: re_t where
  "en_error =
     Alt (lit [226, 8364])
    (Alt (lit [226, 8364, 8220])
    (Alt (lit [226, 8364, 8482])
    (Alt (lit [226, 8364, 339])
         (lit [226, 8364]))))"

definition hyphenated :: "unicode_tables \<Rightarrow> re_t" where
  "hyphenated U =
     seqs [WordB (word U), plus (Cls (word U)), chr 45, Star (Cls isspace), chr 10,
           Star (Cls isspace), plus (Cls (word U)), WordB (word U)]"

definition common_fixes :: "(str \<times> str) list" where
  "common_fixes =
     [([195, 167], [231]), ([195, 163], [227]), ([195, 161], [225]), ([195, 169], [233]),
      ([195, 179], [243]), ([195, 181], [245]), ([195, 170], [234]), ([195, 162], [226]),
      ([195, 32], [224]), ([195, 186], [250]), ([195, 173], [237]),
      (ascii ''P'' @ [238] @ ascii ''S'', ascii ''P'' @ [243] @ ascii ''s''),
      (ascii ''Gradua,'' @ [204] @ ascii ''O'', ascii ''Gradua'' @ [231, 227] @ ascii ''o''),
      (ascii ''CAP'' @ [234] @ ascii ''TULO'', ascii ''CAP'' @ [205] @ ascii ''TULO''),
      ([226, 8364, 339], [34]), ([226, 8364], [34]), ([226, 8364, 8482], [39]),
      ([226, 8364, 8220], [45])]"

definition add_correction :: "unicode_tables \<Rightarrow> (str \<times> str) list \<Rightarrow> str \<Rightarrow> (str \<times> str) list" where
  "add_correction U m error =
     (case map_of common_fixes error of
        Some fix \<Rightarrow> dict_set m error fix
      | None \<Rightarrow>
          (let corrected = unidecode U error
           in if corrected \<noteq> error \<and> length corrected > 0 then dict_set m error corrected else m))"

definition analyze_errors :: "env \<Rightarrow> unicode_tables \<Rightarrow> processor \<Rightarrow> str \<Rightarrow> processor" where
  "analyze_errors E U s text =
     (let encoding = (case chardet_detect E (encode_utf8_replace text) of
                        None \<Rightarrow> ascii ''utf-8''
                      | Some e \<Rightarrow> if e = [] then ascii ''utf-8'' else e);
          invalid_chars = re_findall (invalid_char U) text;
          patterns = counter_update (error_patterns s) invalid_chars;
          patterns = (if language s = Portuguese
                      then counter_update patterns (re_findall pt_error text)
                      else if language s = English
                      then counter_update patterns (re_findall en_error text)
                      else patterns);
          hyph = re_findall (hyphenated U) text;
          patterns = counter_update patterns (replicate (length hyph) (ascii ''hyphenated_word''))
      in s\<lparr> detected_encoding := Some encoding,
            error_patterns := patterns,
            correction_map := foldl (add_correction U) (correction_map s) (map fst patterns) \<rparr>)"

section \<open>The corrector\<close>

definition dehyphenate :: "unicode_tables \<Rightarrow> str \<Rightarrow> str" where
  "dehyphenate U text =
     re_sub (seqs [Group 1 (Seq (WordB (word U)) (plus (Cls (word U)))), chr 45,
                   Star (Cls isspace), chr 10, Star (Cls isspace),
                   Group 2 (Seq (plus (Cls (word U))) (WordB (word U)))])
            [TGroup 1, TGroup 2] text"

definition reattach_pattern :: "unicode_tables \<Rightarrow> re_t" where
  "reattach_pattern U =
     seqs [Group 1 (Cls (word U)), Star (Cls isspace), chr 45, Star (Cls isspace),
           Group 2 (Cls (word U))]"

definition reattach_hyphen :: "unicode_tables \<Rightarrow> str \<Rightarrow> str" where
  "reattach_hyphen U text =
     re_sub (reattach_pattern U) [TGroup 1, TLit (ascii ''-''), TGroup 2] text"

definition split_paragraphs :: "str \<Rightarrow> str" where
  "split_paragraphs text =
     re_sub (seqs [Group 1 (Cls (\<lambda>c. (97 \<le> c \<and> c \<le> 122) \<or> (224 \<le> c \<and> c \<le> 255))),
                   chr 46, Cls isspace,
                   Group 2 (Cls (\<lambda>c. (65 \<le> c \<and> c \<le> 90) \<or> (192 \<le> c \<and> c \<le> 376)))])
            [TGroup 1, TLit (ascii ''. '' @ [10, 10]), TGroup 2] text"

definition mark_articles :: "unicode_tables \<Rightarrow> str \<Rightarrow> str" where
  "mark_articles U text =
     re_sub (seqs [lit (ascii ''Art''), chr 46, Star (Cls isspace),
                   Group 1 (plus (Cls (isdecimal U))), opt (one_of [186, 176])])
            [TLit (ascii ''**Art. ''), TGroup 1, TLit (ascii ''**'')] text"

definition isascii :: "str \<Rightarrow> bool" where
  "isascii text \<longleftrightarrow> (\<forall>c \<in> set text. c < 128)"

definition auto_correct :: "unicode_tables \<Rightarrow> processor \<Rightarrow> str \<Rightarrow> str" where
  "auto_correct U s text =
     (let text = (if \<not> isascii text then encode_decode_utf8_ignore text else text);
          text = apply_replacements (correction_map s) text;
          text = dehyphenate U text;
          text = collapse_whitespace text;
          text = reattach_hyphen U text
      in if language s = Portuguese then mark_articles U (split_paragraphs text) else text)"

section \<open>The structure enhancer\<close>

definition enhance_structure :: "unicode_tables \<Rightarrow> str \<Rightarrow> str" where
  "enhance_structure U text =
     (let text = re_sub (seqs [chr 10, Group 1 (Star (Cls isspace)),
                              Group 2 (Alt (seqs [lit (ascii ''CAP''), one_of [205, 73],
                                                  lit (ascii ''TULO'')])
                                           (lit (ascii ''CHAPTER''))),
                              plus (Cls isspace),
                              Group 3 (plus (one_of (ascii ''IVXLCDM''))),
                              Group 4 (Star (Cls isspace))])
                       [TLit ([10] @ ascii ''## ''), TGroup 2, TLit (ascii '' ''), TGroup 3,
                        TLit [10]] text;
          text = re_sub (seqs [chr 10,
                              Group 1 (seqs [plus (Cls (isdecimal U)), chr 46,
                                             plus (Cls (isdecimal U)), opt (chr 46),
                                             plus (Cls isspace)]),
                              Group 2 (plus (Cls (\<lambda>c. c \<noteq> 10)))])
                       [TLit ([10] @ ascii ''### ''), TGroup 1, TGroup 2, TLit [10]] text;
          text = re_sub (seqs [chr 10, Group 1 (Seq (Star (Cls isspace)) (one_of [45, 42, 8226])),
                              plus (Cls isspace)])
                       [TLit ([10] @ ascii ''- '')] text
      in text)"

section \<open>The formatter and its fallback\<close>

text \<open>
  \<open>fallback_sanitization\<close>: the bare \<open>except\<close> turns every failure of the first path
  into the ASCII characters of the text, so the function always returns.
  \<open>process_with_docling\<close>: the text handed to the formatter is \<open>staged_text\<close>, the content
  of the temporary file; each of the two handlers returns the fallback.
\<close>

definition fallback_sanitization :: "env \<Rightarrow> str \<Rightarrow> str" where
  "fallback_sanitization E text =
     (let detected_encoding =
            (case chardet_detect E (encode_latin1_replace text) of
               None \<Rightarrow> ascii ''latin1''
             | Some e \<Rightarrow> if e = [] then ascii ''latin1'' else e)
      in case encode_ignore E detected_encoding text of
           Inr bytes \<Rightarrow> sanitize_text (decode_utf8_ignore E bytes)
         | Inl e \<Rightarrow> filter (\<lambda>c. c < 128) text)"

definition staged_text :: "str \<Rightarrow> str" where
  "staged_text text = sanitize_text text"

definition process_with_docling :: "env \<Rightarrow> str \<Rightarrow> exn + str" where
  "process_with_docling E text =
     (case docling E (staged_text text) of
        Inr md_text \<Rightarrow> Inr md_text
      | Inl UnicodeEncodeError \<Rightarrow> Inr (fallback_sanitization E text)
      | Inl e \<Rightarrow> Inr (fallback_sanitization E text))"

section \<open>Extraction\<close>

text \<open>
  Each extractor catches what its library raises and returns the empty text instead, so
  the \<open>try\<close> around the call in \<open>extract_text\<close> has nothing left to catch. The loop over
  the methods is a fold over the texts they return, with \<open>(best_text, best_score)\<close> as
  its state.
\<close>

definition extract_with_fitz :: "env \<Rightarrow> str \<Rightarrow> str" where
  "extract_with_fitz E file_path = (case fitz_pages E file_path of Inl e \<Rightarrow> [] | Inr t \<Rightarrow> t)"

definition extract_with_pdfplumber :: "env \<Rightarrow> str \<Rightarrow> str" where
  "extract_with_pdfplumber E file_path =
     (case pdfplumber_pages E file_path of Inl e \<Rightarrow> [] | Inr t \<Rightarrow> t)"

definition methods :: "env \<Rightarrow> (str \<Rightarrow> str) list" where
  "methods E = [extract_with_fitz E, extract_with_pdfplumber E]"

definition try_method :: "unicode_tables \<Rightarrow> str \<times> rat \<Rightarrow> str \<Rightarrow> str \<times> rat" where
  "try_method U best text =
     (if text = [] then best
      else if evaluate_text_quality U text > snd best
      then (text, evaluate_text_quality U text)
      else best)"

definition best_extraction :: "unicode_tables \<Rightarrow> str list \<Rightarrow> str \<times> rat" where
  "best_extraction U texts = foldl (try_method U) ([], 0) texts"

definition extract_text :: "env \<Rightarrow> unicode_tables \<Rightarrow> processor \<Rightarrow> str \<Rightarrow> str \<times> processor" where
  "extract_text E U s file_path =
     (let best_text = fst (best_extraction U (map (\<lambda>method. method file_path) (methods E)))
      in if best_text = [] then ([], s)
         else (best_text, s\<lparr> language := detect_language U best_text \<rparr>))"

section \<open>The orchestrator\<close>

text \<open>
  \<open>process_file\<close>. A run gives back what the call returns (\<open>None\<close>, the final text, or
  the exception that leaves the call), the processor after it, the files it wrote, and
  the arguments with which the branch guarded by \<open>sanitization_attempted\<close> called
  \<open>fallback_sanitization\<close>, one per execution of the branch. \<open>open(path, "w")\<close> creates
  the file before \<open>write\<close> encodes the text, so a text UTF-8 cannot encode leaves an empty
  file and \<open>UnicodeEncodeError\<close>.
\<close>

definition basename :: "str \<Rightarrow> str" where
  "basename path = rev (takeWhile (\<lambda>c. c \<noteq> 47) (rev path))"

definition path_join :: "str \<Rightarrow> str \<Rightarrow> str" where
  "path_join a b =
     (if b \<noteq> [] \<and> hd b = 47 then b
      else if a = [] \<or> last a = 47 then a @ b
      else a @ [47] @ b)"

record run =
  returned :: "exn + str option"
  processor_after :: processor
  written :: "(str \<times> str) list"
  retried_with :: "str list"

definition write_output :: "env \<Rightarrow> processor \<Rightarrow> str list \<Rightarrow> str \<Rightarrow> str \<Rightarrow> run" where
  "write_output E s retried output_path final_text =
     (if \<not> writable E output_path
      then \<lparr> returned = Inl OSError, processor_after = s, written = [], retried_with = retried \<rparr>
      else if \<exists>c \<in> set final_text. is_surrogate c
      then \<lparr> returned = Inl UnicodeEncodeError, processor_after = s,
             written = [(output_path, [])], retried_with = retried \<rparr>
      else \<lparr> returned = Inr (Some final_text), processor_after = s,
             written = [(output_path, final_text)], retried_with = retried \<rparr>)"

definition process_file :: "env \<Rightarrow> unicode_tables \<Rightarrow> processor \<Rightarrow> str \<Rightarrow> str \<Rightarrow> run" where
  "process_file E U s input_path output_dir =
     (let s = s\<lparr> sanitization_attempted := False \<rparr>
      in if \<not> path_exists E input_path
         then \<lparr> returned = Inr None, processor_after = s, written = [], retried_with = [] \<rparr>
         else
           let (raw_text, s) = extract_text E U s input_path
           in if raw_text = []
              then \<lparr> returned = Inr None, processor_after = s, written = [], retried_with = [] \<rparr>
              else
                let s = analyze_errors E U s raw_text;
                    corrected_text = auto_correct U s raw_text;
                    structured_text = enhance_structure U corrected_text;
                    output_path = path_join output_dir (basename input_path @ ascii ''.md'')
                in case process_with_docling E structured_text of
                     Inl e \<Rightarrow> \<lparr> returned = Inl e, processor_after = s, written = [],
                               retried_with = [] \<rparr>
                   | Inr final_text \<Rightarrow>
                       if 65533 \<in> set final_text \<and> \<not> sanitization_attempted s
                       then
                         let s = s\<lparr> sanitization_attempted := True \<rparr>;
                             sanitized_text = fallback_sanitization E raw_text
                         in case process_with_docling E sanitized_text of
                              Inl e \<Rightarrow> \<lparr> returned = Inl e, processor_after = s, written = [],
                                        retried_with = [raw_text] \<rparr>
                            | Inr final_text \<Rightarrow> write_output E s [raw_text] output_path final_text
                       else write_output E s [] output_path final_text)"

text \<open>
  \<open>main\<close> runs \<open>process_file\<close> on each file with a processor of its own: the one it
  constructs before the loop for the first file, and the one it constructs at the end of
  each iteration for the next.
\<close>

definition main_runs :: "env \<Rightarrow> unicode_tables \<Rightarrow> str list \<Rightarrow> str \<Rightarrow> run list" where
  "main_runs E U pdf_files output_dir = map (\<lambda>pdf_file. process_file E U init pdf_file output_dir) pdf_files"

section \<open>The claims in the words of the specification\<close>

text \<open>
  The specification's score: as \<open>evaluate_text_quality\<close>, but with the problem ratio it
  describes, the fraction of the characters that are a corruption marker (the replacement
  character U+FFFD or NUL).
\<close>

definition claimed_problem_ratio :: "str \<Rightarrow> rat" where
  "claimed_problem_ratio text =
     of_nat (length (filter (\<lambda>c. c = 65533 \<or> c = 0) text)) / of_nat (length text)"

definition claimed_quality :: "unicode_tables \<Rightarrow> str \<Rightarrow> rat" where
  "claimed_quality U text =
     (if length text < 100 then 0
      else 6 / 10 * valid_ratio U text +
           2 / 10 * (if 1 / 10 < space_ratio text \<and> space_ratio text < 3 / 10 then 1 / 10 else 0) +
           2 / 10 * (1 - min (10 * claimed_problem_ratio text) 1))"

text \<open>
  The occurrences of a word in a text: the number of positions at which the word starts.
  The counts of the language vote are the sums of these over the five words of each
  language, in the lowercased text.
\<close>

fun occurrences :: "str \<Rightarrow> str \<Rightarrow> nat" where
  "occurrences w [] = 0"
| "occurrences w (c # cs) = (if prefix w (c # cs) then 1 else 0) + occurrences w cs"

definition pt_count :: "unicode_tables \<Rightarrow> str \<Rightarrow> nat" where
  "pt_count U text = sum_list (map (\<lambda>w. occurrences w (lower U text)) pt_words)"

definition en_count :: "unicode_tables \<Rightarrow> str \<Rightarrow> nat" where
  "en_count U text = sum_list (map (\<lambda>w. occurrences w (lower U text)) en_words)"

text \<open>A word none of whose proper suffixes is a prefix of it cannot overlap itself.\<close>

definition border_free :: "str \<Rightarrow> bool" where
  "border_free w \<longleftrightarrow> w \<noteq> [] \<and> (\<forall>k < length w. 0 < k \<longrightarrow> \<not> prefix (drop k w) w)"

section \<open>Inputs of the examples\<close>

text \<open>
  \<open>one_marker_text\<close>: 99 letters \<open>a\<close> and one U+FFFD. \<open>plain_text\<close>: 200 letters \<open>a\<close>.
  \<open>spaced_text\<close>: 159 letters \<open>a\<close>, 40 spaces and one NUL. \<open>nul_text\<close>: 199 letters \<open>a\<close>
  and one NUL.
\<close>

definition one_marker_text :: str where
  "one_marker_text = replicate 99 97 @ [65533]"




text \<open>
  \<open>messy_text\<close>: \<open>a\<close>, three newlines, NUL, U+FFFD, a soft hyphen, a zero-width space, a
  no-break space, a space, \<open>b\<close>.
\<close>

definition messy_text :: str where
  "messy_text = ascii ''a'' @ [10, 10, 10, 0, 65533, 173, 8203, 160, 32] @ ascii ''b''"

text \<open>
  An environment for the examples: every path exists and is writable, \<open>chardet\<close> detects
  nothing (so that the fallback uses \<open>latin1\<close>), \<open>encode_ignore\<close> is the Latin-1 encoder and
  \<open>decode_utf8_ignore\<close> the UTF-8 decoder on ASCII bytes; the examples give it ASCII bytes
  only. The two extractors and the formatter are its parameters.
\<close>

definition example_env :: "(str \<Rightarrow> exn + str) \<Rightarrow> (str \<Rightarrow> exn + str) \<Rightarrow> (str \<Rightarrow> exn + str) \<Rightarrow> env" where
  "example_env fitz plumber converter =
     \<lparr> path_exists = (\<lambda>p. True), fitz_pages = fitz, pdfplumber_pages = plumber,
       chardet_detect = (\<lambda>b. None),
       encode_ignore = (\<lambda>codec t. Inr (filter (\<lambda>c. c < 256) t)),
       decode_utf8_ignore = filter (\<lambda>b. b < 128),
       docling = converter, writable = (\<lambda>p. True) \<rparr>"



definition failing_env :: env where
  "failing_env = example_env (\<lambda>p. Inl OtherException) (\<lambda>p. Inr (ascii ''too short'')) (\<lambda>t. Inl OtherException)"


section \<open>Notions used in the proofs\<close>

text \<open>
  \<open>requires C r\<close>: the shape of \<open>r\<close> shows that every match of \<open>r\<close> consumes a character
  of \<open>C\<close>. A text without such a character has no match.
\<close>

fun requires :: "codepoint set \<Rightarrow> re_t \<Rightarrow> bool" where
  "requires C Eps = False"
| "requires C (Cls P) = (\<forall>c. P c \<longrightarrow> c \<in> C)"
| "requires C (Seq a b) = (requires C a \<or> requires C b)"
| "requires C (Alt a b) = (requires C a \<and> requires C b)"
| "requires C (Star a) = False"
| "requires C (Group n a) = requires C a"
| "requires C (WordB W) = False"

text \<open>
  What the whitespace rule and the hyphen rule of the corrector compute, as recursive
  functions: \<open>squeeze\<close> turns every run of whitespace into one space; \<open>rejoin\<close> removes the
  whitespace around a hyphen between two word characters, where \<open>hyphen_match\<close> finds such
  a place at the head of the text and returns the second word character and the rest.
  A text is \<open>tidy\<close> when its whitespace characters are single spaces, no two adjacent.
  \<open>sane\<close> is what the proofs need of the tables: an alphanumeric character is not
  whitespace, and the hyphen is not alphanumeric.
\<close>

function squeeze :: "str \<Rightarrow> str" where
  "squeeze [] = []"
| "squeeze (c # cs) =
     (if isspace c then 32 # squeeze (dropWhile isspace cs) else c # squeeze cs)"
  by pat_completeness auto
termination
  by (relation "measure length") (auto simp: le_imp_less_Suc length_dropWhile_le)








definition english_state :: processor where
  "english_state = init\<lparr> language := English, correction_map := [([8364], ascii ''EUR'')] \<rparr>"

text \<open>
  \<open>two_documents\<close>: the file \<open>1.pdf\<close> holds \<open>first_document\<close>, the mis-decoded \<open>P\<close>,
  U+00EE, \<open>S\<close> followed by 100 letters \<open>o\<close> (Portuguese for the language vote); any other
  file holds \<open>second_document\<close>, the same three characters followed by 100 letters \<open>x\<close>
  (no language wins the vote). The formatter returns the text it is given.
  \<open>pos_state\<close> is the processor after the first document; \<open>missing_env\<close> is
  \<open>two_documents\<close> with no file at all.
\<close>

definition first_document :: str where
  "first_document = [80, 238, 83] @ replicate 100 111"

definition second_document :: str where
  "second_document = [80, 238, 83] @ replicate 100 120"

definition two_documents :: env where
  "two_documents =
     example_env (\<lambda>p. if p = ascii ''1.pdf'' then Inr first_document else Inr second_document)
                 (\<lambda>p. Inl OtherException) Inr"

definition missing_env :: env where
  "missing_env = two_documents\<lparr> path_exists := (\<lambda>p. False) \<rparr>"

definition pos_state :: processor where
  "pos_state =
     \<lparr> error_patterns = [([80, 238, 83], 1)], correction_map = [([80, 238, 83], [80, 243, 115])],
       detected_encoding = Some (ascii ''utf-8''), language = Portuguese,
       sanitization_attempted = False \<rparr>"

section \<open>Properties of the quality scorer\<close>

lemma count_from_single: "count_from [c] text = count_list text c"
  by (induction "text") auto

lemma str_count_single: "str_count text [c] = count_list text c"
  by (simp add: str_count_def count_from_single)

lemma count_list_replicate: "count_list (replicate n x) c = (if x = c then n else 0)"
  by (induction n) auto

text \<open>The replacement character counts twice among the problem characters.\<close>

lemma problem_chars_eq:
  "problem_chars text = 2 * count_list text 65533 + count_list text 0"
  by (simp add: problem_chars_def problem_markers_def str_count_single)


lemmas quality_defs =
  evaluate_text_quality_def valid_ratio_def valid_chars_def space_bonus_def space_ratio_def
  problem_ratio_def problem_chars_eq str_count_single count_list_replicate
  latin1_tables_def latin1_isalnum_def isspace_def punctuation_def ascii_def





text \<open>
  What does hold of the score of every text: it is 0 below 100 characters, and it lies
  between 0 and 1.
\<close>

lemma evaluate_text_quality_short: "length text < 100 \<Longrightarrow> evaluate_text_quality U text = 0"
  by (simp add: evaluate_text_quality_def)


text \<open>
  Claim C3: the score is 0 below 100 characters and otherwise the stated formula, in which
  the problem ratio is the fraction of the characters that are U+FFFD or NUL. On 99
  letters and one U+FFFD the formula gives \<open>0.6 * 0.99 + 0.2 * (1 - 0.1) = 0.774\<close>; the
  program counts the U+FFFD twice and returns \<open>0.6 * 0.99 + 0.2 * (1 - 0.2) = 0.754\<close>.
\<close>

theorem one_marker_counted_twice:
  "evaluate_text_quality latin1_tables one_marker_text = 377 / 500 \<and>
   claimed_quality latin1_tables one_marker_text = 387 / 500"
  by (simp add: one_marker_text_def claimed_quality_def claimed_problem_ratio_def quality_defs)




section \<open>Properties of the language detector\<close>

lemma no_overlap:
  assumes "border_free w" "prefix w s" "0 < k" "k < length w"
  shows "\<not> prefix w (drop k s)"
proof
  assume p: "prefix w (drop k s)"
  from assms(2) obtain r where s: "s = w @ r" by (auto simp: prefix_def)
  with assms(4) have d: "drop k s = drop k w @ r" by simp
  have "prefix (drop k w) (drop k s)" by (simp add: d)
  with p have "prefix (drop k w) w \<or> prefix w (drop k w)"
    using prefix_same_cases by blast
  moreover have "length (drop k w) < length w" using assms(3,4) by simp
  ultimately have "prefix (drop k w) w"
    by (metis prefix_length_le not_less)
  with assms show False by (simp add: border_free_def)
qed

lemma occurrences_skip:
  assumes "border_free w" "prefix w s"
  shows "1 \<le> k \<Longrightarrow> k \<le> length w \<Longrightarrow>
         occurrences w (drop k s) = occurrences w (drop (length w) s)"
proof (induction "length w - k" arbitrary: k)
  case 0
  then show ?case by simp
next
  case (Suc n)
  then have k: "0 < k" "k < length w" by simp_all
  from assms(2) have "length w \<le> length s" by (rule prefix_length_le)
  with k have "k < length s" by simp
  then obtain c cs where dk: "drop k s = c # cs"
    by (cases "drop k s") simp_all
  then have cs: "cs = drop (Suc k) s"
    by (metis drop_Suc list.sel(3) tl_drop)
  have "\<not> prefix w (drop k s)" using no_overlap [OF assms k] .
  then have "occurrences w (drop k s) = occurrences w (drop (Suc k) s)"
    by (simp add: dk cs [symmetric])
  also have "\<dots> = occurrences w (drop (length w) s)"
    using Suc by simp
  finally show ?case .
qed

text \<open>
  For such a word, the count of \<open>str.count\<close>, which skips a whole match at a time, is the
  number of positions at which the word occurs.
\<close>

lemma count_from_occurrences:
  "border_free w \<Longrightarrow> count_from w s = occurrences w s"
proof (induction w s rule: count_from.induct)
  case (1 sub)
  then show ?case by simp
next
  case (2 sub c cs)
  show ?case
  proof (cases "prefix sub (c # cs)")
    case True
    from 2(3) have ne: "sub \<noteq> []" by (simp add: border_free_def)
    then have l: "1 \<le> length sub" by (cases sub) simp_all
    have "occurrences sub cs = occurrences sub (drop 1 (c # cs))" by simp
    also have "\<dots> = occurrences sub (drop (length sub) (c # cs))"
      using occurrences_skip [OF 2(3) True, of 1] l by simp
    finally have "occurrences sub cs = occurrences sub (drop (length sub) (c # cs))" .
    with 2 True ne show ?thesis by simp
  next
    case False
    with 2 show ?thesis by simp
  qed
qed

lemma str_count_occurrences: "border_free w \<Longrightarrow> str_count s w = occurrences w s"
  by (simp add: str_count_def count_from_occurrences border_free_def)

lemma border_free_words: "\<forall>w \<in> set (pt_words @ en_words). border_free w"
  by (simp add: pt_words_def en_words_def border_free_def ascii_def less_Suc_eq
      numeral_3_eq_3 numeral_2_eq_2)

lemma pt_indicators_count: "pt_indicators U text = pt_count U text"
  using border_free_words
  by (simp add: pt_indicators_def pt_count_def str_count_occurrences pt_words_def)

lemma en_indicators_count: "en_indicators U text = en_count U text"
  using border_free_words
  by (simp add: en_indicators_def en_count_def str_count_occurrences en_words_def)

text \<open>
  Claim C9: \<open>detect_language\<close> counts the occurrences of the Portuguese words \<open>o\<close>, \<open>a\<close>,
  \<open>de\<close>, \<open>que\<close>, \<open>e\<close> and of the English words \<open>the\<close>, \<open>and\<close>, \<open>of\<close>, \<open>to\<close>, \<open>in\<close> in the
  lowercased text; it returns \<open>portuguese\<close> exactly when the Portuguese count is strictly
  greater, \<open>english\<close> exactly when the English count is strictly greater, and \<open>unknown\<close>
  exactly when the two are equal.
\<close>

theorem detect_language_vote:
  "(detect_language U text = Portuguese \<longleftrightarrow> en_count U text < pt_count U text) \<and>
   (detect_language U text = English \<longleftrightarrow> pt_count U text < en_count U text) \<and>
   (detect_language U text = Unknown \<longleftrightarrow> pt_count U text = en_count U text)"
  by (auto simp: detect_language_def pt_indicators_count en_indicators_count)

theorem detect_language_vote_witness:
  "detect_language latin1_tables (ascii ''THE KING'') = English \<and>
   pt_count latin1_tables (ascii ''THE KING'') = 1 \<and>
   en_count latin1_tables (ascii ''THE KING'') = 2"
  using detect_language_vote [of latin1_tables "ascii ''THE KING''"]
  by (simp add: pt_count_def en_count_def pt_words_def en_words_def ascii_def
      latin1_tables_def latin1_lower_char_def)

section \<open>Properties of the matcher and of the sanitizer\<close>

text \<open>A match ends in a suffix of the text it started in.\<close>

lemma matches_suffix:
  "st' \<in> set (matches r st) \<Longrightarrow> suffix (fst (snd st')) (fst (snd st))"
proof (induction r st arbitrary: st' rule: matches.induct)
  case (1 st)
  then show ?case by simp
next
  case (2 P p s g)
  then show ?case by (auto split: list.splits if_splits simp: suffix_Cons)
next
  case (3 r1 r2 st)
  from 3(3) obtain m where m: "m \<in> set (matches r1 st)" and st': "st' \<in> set (matches r2 m)"
    by auto
  from 3(1) [OF m] 3(2) [OF m st'] show ?case
    by (rule suffix_order.trans [rotated])
next
  case (4 r1 r2 st)
  then show ?case by (cases st') auto
next
  case (5 r p s g)
  from 5(3) consider "st' = (p, s, g)"
    | m where "m \<in> set (matches r (p, s, g))" "length (fst (snd m)) < length s"
        "st' \<in> set (matches (Star r) m)"
    by (auto split: if_splits)
  then show ?case
  proof cases
    case 1
    then show ?thesis by simp
  next
    case 2
    from 5(1) [OF 2(1)] 5(2) [OF 2(1) 2(2) 2(3)] show ?thesis
      by (simp add: suffix_order.trans)
  qed
next
  case (6 n r p s g)
  then show ?case by fastforce
next
  case (7 W p s g)
  then show ?case by (auto split: if_splits)
qed

lemma first_match_suffix:
  "matches r (p, s, g) = (p', s', g') # ms \<Longrightarrow> suffix s' s"
  using matches_suffix [of "(p', s', g')" r "(p, s, g)"] by simp

lemma re_sub_from_literal_set:
  "set (re_sub_from r [TLit l] p s) \<subseteq> set s \<union> set l"
proof (induction r "[TLit l]" p s rule: re_sub_from.induct)
  case (1 r p)
  then show ?case by (auto simp: expand_def split: list.splits)
next
  case (2 r p c cs)
  show ?case
  proof (cases "matches r (p, c # cs, [])")
    case Nil
    with 2(1) show ?thesis by auto
  next
    case (Cons m ms)
    obtain p' s' g where m: "m = (p', s', g)" by (cases m)
    from Cons m have "suffix s' (c # cs)" by (auto dest: first_match_suffix)
    then have sub: "set s' \<subseteq> set (c # cs)" by (rule set_mono_suffix)
    show ?thesis
    proof (cases "length s' < length (c # cs)")
      case True
      from 2(2) [OF Cons [unfolded m] refl refl True] sub Cons m True show ?thesis
        by (auto simp: expand_def)
    next
      case False
      from 2(3) [OF Cons [unfolded m] refl refl False] Cons m False show ?thesis
        by (auto simp: expand_def)
    qed
  qed
qed

lemma re_sub_from_class:
  "re_sub_from (Cls P) [] p s = filter (\<lambda>c. \<not> P c) s"
  by (induction s arbitrary: p) (simp_all add: expand_def)

lemma strip_controls_filter: "strip_controls text = filter (\<lambda>c. \<not> is_control c) text"
  by (simp add: strip_controls_def re_sub_def re_sub_from_class)

lemma replace_from_delete: "replace_from [c] [] s = filter (\<lambda>x. x \<noteq> c) s"
  by (induction s) auto

lemma sanitize_replacements_filter:
  "apply_replacements sanitize_replacements s =
   filter (\<lambda>c. c \<noteq> 8203 \<and> c \<noteq> 173 \<and> c \<noteq> 65533) s"
  by (auto simp: apply_replacements_def sanitize_replacements_def str_replace_def
      replace_from_delete intro: filter_cong)

lemma no_blank_lines:
  "10 \<notin> set s \<Longrightarrow> re_sub_from blank_lines t p s = s"
  by (induction s arbitrary: p) (simp_all add: blank_lines_def chr_def)

lemma collapse_whitespace_set: "set (collapse_whitespace s) \<subseteq> set s \<union> {32}"
  using re_sub_from_literal_set [of "plus (Cls isspace)" "ascii '' ''" None s]
  by (simp add: collapse_whitespace_def re_sub_def ascii_def)

lemma sanitized_chars:
  assumes "c \<in> set (collapse_whitespace (apply_replacements sanitize_replacements
             (encode_decode_utf8_ignore (strip_controls text))))"
  shows "c = 32 \<or> (c \<in> set text \<and> \<not> is_control c \<and> \<not> is_surrogate c \<and>
                    c \<noteq> 65533 \<and> c \<noteq> 173 \<and> c \<noteq> 8203)"
proof -
  let ?y = "apply_replacements sanitize_replacements
              (encode_decode_utf8_ignore (strip_controls text))"
  from assms collapse_whitespace_set [of ?y] have "c \<in> set ?y \<or> c = 32" by blast
  then show ?thesis
    by (auto simp: sanitize_replacements_filter encode_decode_utf8_ignore_def
        strip_controls_filter)
qed

lemma blank_line_step_noop:
  "collapse_blank_lines (collapse_whitespace (apply_replacements sanitize_replacements
     (encode_decode_utf8_ignore (strip_controls text)))) =
   collapse_whitespace (apply_replacements sanitize_replacements
     (encode_decode_utf8_ignore (strip_controls text)))"
proof -
  have "10 \<notin> set (collapse_whitespace (apply_replacements sanitize_replacements
     (encode_decode_utf8_ignore (strip_controls text))))"
  proof
    assume "10 \<in> set (collapse_whitespace (apply_replacements sanitize_replacements
      (encode_decode_utf8_ignore (strip_controls text))))"
    from sanitized_chars [OF this] show False by (simp add: is_control_def)
  qed
  then show ?thesis
    by (simp add: collapse_blank_lines_def re_sub_def no_blank_lines)
qed

lemma sanitize_text_chars:
  assumes "c \<in> set (sanitize_text text)"
  shows "c = 32 \<or> (c \<in> set text \<and> \<not> is_control c \<and> \<not> is_surrogate c \<and>
                    c \<noteq> 65533 \<and> c \<noteq> 173 \<and> c \<noteq> 8203)"
  using assms unfolding sanitize_text_def blank_line_step_noop by (rule sanitized_chars)

text \<open>
  Claim C10: the output of \<open>sanitize_text\<close> contains no newline, no C0 or C1 control
  character (U+0000 to U+001F, U+007F to U+009F), and no U+FFFD, U+00AD or U+200B; so the
  text staged for the formatter in \<open>process_with_docling\<close> has no newline, and the last
  statement of \<open>sanitize_text\<close>, which collapses runs of three or more newlines, returns
  its argument unchanged.
\<close>

theorem sanitize_text_clean:
  "(\<forall>c \<in> set (sanitize_text text).
      c \<noteq> 10 \<and> \<not> c \<le> 31 \<and> \<not> (127 \<le> c \<and> c \<le> 159) \<and> c \<noteq> 65533 \<and> c \<noteq> 173 \<and> c \<noteq> 8203) \<and>
   10 \<notin> set (staged_text text) \<and>
   collapse_blank_lines
     (collapse_whitespace
        (apply_replacements sanitize_replacements
           (encode_decode_utf8_ignore (strip_controls text)))) =
   collapse_whitespace
     (apply_replacements sanitize_replacements
        (encode_decode_utf8_ignore (strip_controls text)))"
proof (intro conjI ballI)
  fix c
  assume "c \<in> set (sanitize_text text)"
  from sanitize_text_chars [OF this] show "c \<noteq> 10" "\<not> c \<le> 31" "\<not> (127 \<le> c \<and> c \<le> 159)"
    "c \<noteq> 65533" "c \<noteq> 173" "c \<noteq> 8203"
    by (auto simp: is_control_def)
next
  show "10 \<notin> set (staged_text text)"
  proof
    assume "10 \<in> set (staged_text text)"
    then have "10 \<in> set (sanitize_text text)" by (simp only: staged_text_def)
    from sanitize_text_chars [OF this] show False by (simp add: is_control_def)
  qed
next
  show "collapse_blank_lines
     (collapse_whitespace
        (apply_replacements sanitize_replacements
           (encode_decode_utf8_ignore (strip_controls text)))) =
   collapse_whitespace
     (apply_replacements sanitize_replacements
        (encode_decode_utf8_ignore (strip_controls text)))"
    by (rule blank_line_step_noop)
qed

lemmas re_defs = re_sub_def re_findall_def plus_def opt_def chr_def lit_def seqs_def one_of_def
  expand_def word_def

lemmas sanitize_defs = sanitize_text_def strip_controls_def is_control_def
  encode_decode_utf8_ignore_def is_surrogate_def apply_replacements_def
  sanitize_replacements_def str_replace_def collapse_whitespace_def collapse_blank_lines_def
  blank_lines_def isspace_def ascii_def

lemma messy_text_sanitized: "sanitize_text messy_text = ascii ''a b''"
  by (simp add: messy_text_def sanitize_defs re_defs)

theorem sanitize_text_clean_witness:
  "sanitize_text messy_text = ascii ''a b'' \<and> 10 \<in> set messy_text \<and>
   10 \<notin> set (sanitize_text messy_text) \<and> 10 \<notin> set (staged_text messy_text)"
proof -
  have m: "10 \<in> set messy_text" by (simp add: messy_text_def)
  from sanitize_text_clean [of messy_text] messy_text_sanitized m show ?thesis
    by (simp add: ascii_def)
qed

section \<open>Properties of extraction\<close>






lemma best_extraction_unusable:
  "\<forall>t \<in> set ts. evaluate_text_quality U t = 0 \<Longrightarrow> foldl (try_method U) ([], 0) ts = ([], 0)"
  by (induction ts) (simp_all add: try_method_def)

lemma extract_text_unusable:
  assumes "\<forall>method \<in> set (methods E). evaluate_text_quality U (method file_path) = 0"
  shows "extract_text E U s file_path = ([], s)"
proof -
  from assms have "\<forall>t \<in> set (map (\<lambda>method. method file_path) (methods E)).
      evaluate_text_quality U t = 0" by simp
  then show ?thesis
    by (simp only: extract_text_def best_extraction_def best_extraction_unusable Let_def)
      simp
qed

text \<open>
  Claim C7: if every extractor fails or returns a text of score 0, \<open>process_file\<close> returns
  \<open>None\<close> and writes no file.
\<close>

theorem no_usable_extraction:
  assumes "\<forall>method \<in> set (methods E). evaluate_text_quality U (method input_path) = 0"
  shows "returned (process_file E U s input_path output_dir) = Inr None \<and>
         written (process_file E U s input_path output_dir) = []"
  using extract_text_unusable [OF assms]
  by (simp add: process_file_def Let_def)

theorem no_usable_extraction_witness:
  "evaluate_text_quality latin1_tables (extract_with_fitz failing_env (ascii ''a.pdf'')) = 0 \<and>
   evaluate_text_quality latin1_tables (extract_with_pdfplumber failing_env (ascii ''a.pdf'')) = 0 \<and>
   extract_with_fitz failing_env (ascii ''a.pdf'') = [] \<and>
   extract_with_pdfplumber failing_env (ascii ''a.pdf'') = ascii ''too short'' \<and>
   returned (process_file failing_env latin1_tables init (ascii ''a.pdf'') (ascii ''out'')) = Inr None \<and>
   written (process_file failing_env latin1_tables init (ascii ''a.pdf'') (ascii ''out'')) = []"
proof -
  have t: "extract_with_fitz failing_env (ascii ''a.pdf'') = []"
    "extract_with_pdfplumber failing_env (ascii ''a.pdf'') = ascii ''too short''"
    by (simp_all add: extract_with_fitz_def extract_with_pdfplumber_def failing_env_def
        example_env_def)
  have h: "\<forall>method \<in> set (methods failing_env).
      evaluate_text_quality latin1_tables (method (ascii ''a.pdf'')) = 0"
    by (simp add: methods_def t) (simp add: evaluate_text_quality_def ascii_def)
  have z: "evaluate_text_quality latin1_tables [] = 0"
    "evaluate_text_quality latin1_tables (ascii ''too short'') = 0"
    by (simp_all add: evaluate_text_quality_def ascii_def)
  from z t no_usable_extraction [OF h, of init "ascii ''out''"] show ?thesis by simp
qed

section \<open>Properties of the formatter and the orchestrator\<close>








lemma retried_with_write_output [simp]:
  "retried_with (write_output E s retried output_path final_text) = retried"
  by (simp add: write_output_def)




section \<open>Texts that a pattern cannot match\<close>

lemma matches_consumes:
  "st' \<in> set (matches r st) \<Longrightarrow> requires C r \<Longrightarrow>
   \<exists>u. fst (snd st) = u @ fst (snd st') \<and> set u \<inter> C \<noteq> {}"
proof (induction r st arbitrary: st' rule: matches.induct)
  case (1 st)
  then show ?case by simp
next
  case (2 P p s g)
  then show ?case
    by (cases s) (auto split: if_splits intro: exI [of _ "[hd s]"])
next
  case (3 r1 r2 st)
  from 3(3) obtain m where m: "m \<in> set (matches r1 st)" and st': "st' \<in> set (matches r2 m)"
    by auto
  from matches_suffix [OF m] obtain u1 where u1: "fst (snd st) = u1 @ fst (snd m)"
    by (auto simp: suffix_def)
  from matches_suffix [OF st'] obtain u2 where u2: "fst (snd m) = u2 @ fst (snd st')"
    by (auto simp: suffix_def)
  from 3(4) consider "requires C r1" | "requires C r2" by auto
  then show ?case
  proof cases
    case 1
    from 3(1) [OF m 1] obtain v where "fst (snd st) = v @ fst (snd m)" "set v \<inter> C \<noteq> {}"
      by blast
    with u2 show ?thesis by (intro exI [of _ "v @ u2"]) auto
  next
    case 2
    from 3(2) [OF m st' 2] obtain v where "fst (snd m) = v @ fst (snd st')" "set v \<inter> C \<noteq> {}"
      by blast
    with u1 show ?thesis by (intro exI [of _ "u1 @ v"]) auto
  qed
next
  case (4 r1 r2 st)
  then show ?case by (cases st') auto
next
  case (5 r p s g)
  then show ?case by simp
next
  case (6 n r p s g)
  then show ?case by fastforce
next
  case (7 W p s g)
  then show ?case by simp
qed

lemma no_match:
  assumes "requires C r" "set s \<inter> C = {}"
  shows "matches r (p, s, g) = []"
proof (rule ccontr)
  assume "matches r (p, s, g) \<noteq> []"
  then obtain st' where "st' \<in> set (matches r (p, s, g))"
    by (cases "matches r (p, s, g)") auto
  from matches_consumes [OF this assms(1)] assms(2) show False by auto
qed

lemma re_sub_from_unchanged:
  "requires C r \<Longrightarrow> set s \<inter> C = {} \<Longrightarrow> re_sub_from r t p s = s"
proof (induction s arbitrary: p)
  case Nil
  then show ?case by (simp add: no_match)
next
  case (Cons c cs)
  from Cons(2,3) have "matches r (p, c # cs, []) = []" by (rule no_match)
  moreover from Cons have "re_sub_from r t (Some c) cs = cs" by simp
  ultimately show ?case by simp
qed

lemma re_findall_from_none:
  "requires C r \<Longrightarrow> set s \<inter> C = {} \<Longrightarrow> re_findall_from r p s = []"
proof (induction s arbitrary: p)
  case Nil
  then show ?case by (simp add: no_match)
next
  case (Cons c cs)
  from Cons(2,3) have "matches r (p, c # cs, []) = []" by (rule no_match)
  moreover from Cons have "re_findall_from r (Some c) cs = []" by simp
  ultimately show ?case by simp
qed

lemma re_sub_unchanged: "requires C r \<Longrightarrow> set s \<inter> C = {} \<Longrightarrow> re_sub r t s = s"
  by (simp add: re_sub_def re_sub_from_unchanged)

lemma re_findall_none: "requires C r \<Longrightarrow> set s \<inter> C = {} \<Longrightarrow> re_findall r s = []"
  by (simp add: re_findall_def re_findall_from_none)

lemma re_findall_from_class:
  "re_findall_from (Cls P) p s = map (\<lambda>c. [c]) (filter P s)"
  by (induction s arbitrary: p) simp_all

text \<open>What each pattern of the source cannot match without.\<close>

lemma requires_hyphenated: "requires {45} (hyphenated U)"
  by (simp add: hyphenated_def re_defs)

lemma requires_pt_error: "requires {195, 238, 204, 234} pt_error"
  by (simp add: pt_error_def re_defs ascii_def)

lemma requires_en_error: "requires {8364} en_error"
  by (simp add: en_error_def re_defs)

lemma dehyphenate_unchanged: "45 \<notin> set s \<Longrightarrow> dehyphenate U s = s"
  by (simp add: dehyphenate_def re_sub_unchanged [where C = "{45}"] seqs_def chr_def)


lemma reattach_hyphen_unchanged: "45 \<notin> set s \<Longrightarrow> reattach_hyphen U s = s"
  by (simp add: reattach_hyphen_def reattach_pattern_def re_sub_unchanged [where C = "{45}"]
      seqs_def chr_def)

lemma collapse_whitespace_unchanged: "\<forall>c \<in> set s. \<not> isspace c \<Longrightarrow> collapse_whitespace s = s"
  by (simp add: collapse_whitespace_def re_sub_unchanged [where C = "Collect isspace"] plus_def
      disjoint_iff)

lemma split_paragraphs_unchanged: "46 \<notin> set s \<Longrightarrow> split_paragraphs s = s"
  by (simp add: split_paragraphs_def re_sub_unchanged [where C = "{46}"] seqs_def chr_def)

lemma mark_articles_unchanged: "46 \<notin> set s \<Longrightarrow> mark_articles U s = s"
  by (simp add: mark_articles_def re_sub_unchanged [where C = "{46}"] seqs_def chr_def)

lemma enhance_structure_unchanged: "10 \<notin> set s \<Longrightarrow> enhance_structure U s = s"
  by (simp add: enhance_structure_def re_sub_unchanged [where C = "{10}"] seqs_def chr_def)

lemma count_from_absent: "w \<noteq> [] \<Longrightarrow> hd w \<notin> set s \<Longrightarrow> count_from w s = 0"
  by (induction w s rule: count_from.induct) (auto simp: prefix_def Cons_eq_append_conv)

lemma str_count_absent: "w \<noteq> [] \<Longrightarrow> hd w \<notin> set s \<Longrightarrow> str_count s w = 0"
  by (simp add: str_count_def count_from_absent)

lemma replace_from_no_occurrence:
  "\<not> sublist old s \<Longrightarrow> replace_from old new s = s"
proof (induction old new s rule: replace_from.induct)
  case (1 old new)
  then show ?case by simp
next
  case (2 old new c cs)
  from 2(3) have "\<not> prefix old (c # cs)" by auto
  moreover from 2(3) have "\<not> sublist old cs" by (auto simp: sublist_Cons_right)
  ultimately show ?case using 2(2) by simp
qed


lemma replace_from_absent: "c \<in> set old \<Longrightarrow> c \<notin> set s \<Longrightarrow> replace_from old new s = s"
  by (rule replace_from_no_occurrence) (auto dest: set_mono_sublist)


lemma count_from_no_occurrence: "\<not> sublist w s \<Longrightarrow> count_from w s = 0"
proof (induction w s rule: count_from.induct)
  case (1 sub)
  then show ?case by simp
next
  case (2 sub c cs)
  from 2(3) have "\<not> prefix sub (c # cs)" by auto
  moreover from 2(3) have "\<not> sublist sub cs" by (auto simp: sublist_Cons_right)
  ultimately show ?case using 2(2) by simp
qed

lemma str_count_missing_char: "c \<in> set w \<Longrightarrow> c \<notin> set s \<Longrightarrow> str_count s w = 0"
  by (auto simp: str_count_def dest: set_mono_sublist intro!: count_from_no_occurrence)

section \<open>Properties of the corrector\<close>





subsection \<open>The whitespace rule and the hyphen rule as recursive functions\<close>






























lemma squeeze_starts: "\<not> isspace c \<Longrightarrow> squeeze (c # cs) = c # squeeze cs"
  by simp







subsection \<open>A second application of the corrector\<close>









section \<open>The processor from one call to the next\<close>

lemma counter_add_order:
  "map fst (counter_add c k) = (if k \<in> fst ` set c then map fst c else map fst c @ [k])"
proof (induction c)
  case Nil
  show ?case by simp
next
  case (Cons x c)
  obtain k' n where x: "x = (k', n)" by (cases x)
  show ?case
  proof (cases "k' = k")
    case True
    then show ?thesis by (simp add: x)
  next
    case False
    with Cons show ?thesis by (simp add: x)
  qed
qed

lemma counter_add_keys: "fst ` set (counter_add c k) = insert k (fst ` set c)"
proof -
  have "fst ` set (counter_add c k) = set (map fst (counter_add c k))" by simp
  also have "\<dots> = insert k (fst ` set c)"
    unfolding counter_add_order by auto
  finally show ?thesis .
qed

lemma counter_update_keys: "fst ` set c \<subseteq> fst ` set (counter_update c ks)"
  unfolding counter_update_def
proof (induction ks arbitrary: c)
  case Nil
  show ?case by simp
next
  case (Cons k ks)
  have "fst ` set c \<subseteq> fst ` set (counter_add c k)"
    by (auto simp: counter_add_keys)
  then show ?case
    unfolding foldl_Cons using Cons [of "counter_add c k"] by (rule subset_trans)
qed

lemma dict_set_order:
  "map fst (dict_set d k v) = (if k \<in> fst ` set d then map fst d else map fst d @ [k])"
proof (induction d)
  case Nil
  show ?case by simp
next
  case (Cons x d)
  obtain k' v' where x: "x = (k', v')" by (cases x)
  show ?case
  proof (cases "k' = k")
    case True
    then show ?thesis by (simp add: x)
  next
    case False
    with Cons show ?thesis by (simp add: x)
  qed
qed

lemma dict_set_keys: "fst ` set (dict_set d k v) = insert k (fst ` set d)"
proof -
  have "fst ` set (dict_set d k v) = set (map fst (dict_set d k v))" by simp
  also have "\<dots> = insert k (fst ` set d)"
    unfolding dict_set_order by auto
  finally show ?thesis .
qed

lemma add_correction_keys: "fst ` set m \<subseteq> fst ` set (add_correction U m e)"
  by (auto simp: add_correction_def Let_def dict_set_keys split: option.splits)

lemma add_corrections_keys: "fst ` set m \<subseteq> fst ` set (foldl (add_correction U) m es)"
proof (induction es arbitrary: m)
  case Nil
  show ?case by simp
next
  case (Cons e es)
  show ?case
    unfolding foldl_Cons
    using add_correction_keys [of m U e] Cons [of "add_correction U m e"]
    by (rule subset_trans)
qed

lemma analyze_errors_keeps:
  "fst ` set (correction_map s) \<subseteq> fst ` set (correction_map (analyze_errors E U s t))"
  "fst ` set (error_patterns s) \<subseteq> fst ` set (error_patterns (analyze_errors E U s t))"
proof -
  show "fst ` set (correction_map s) \<subseteq> fst ` set (correction_map (analyze_errors E U s t))"
    by (simp add: analyze_errors_def Let_def add_corrections_keys)
  have 1: "fst ` set (error_patterns s) \<subseteq> fst ` set (counter_update (error_patterns s) a)" for a
    by (rule counter_update_keys)
  have 2: "fst ` set (error_patterns s) \<subseteq>
      fst ` set (counter_update (counter_update (error_patterns s) a) b)" for a b
    using 1 [of a] counter_update_keys [of "counter_update (error_patterns s) a" b]
    by (rule subset_trans)
  have 3: "fst ` set (error_patterns s) \<subseteq>
      fst ` set (counter_update (counter_update (counter_update (error_patterns s) a) b) c)"
    for a b c
    using 2 [of a b]
      counter_update_keys [of "counter_update (counter_update (error_patterns s) a) b" c]
    by (rule subset_trans)
  show "fst ` set (error_patterns s) \<subseteq> fst ` set (error_patterns (analyze_errors E U s t))"
    by (simp add: analyze_errors_def Let_def 2 3)
qed

lemma extract_text_keeps:
  "correction_map (snd (extract_text E U s p)) = correction_map s"
  "error_patterns (snd (extract_text E U s p)) = error_patterns s"
  by (simp_all add: extract_text_def Let_def)

lemma processor_after_cases:
  "processor_after (process_file E U s input_path output_dir) =
     s\<lparr>sanitization_attempted := False\<rparr> \<or>
   processor_after (process_file E U s input_path output_dir) =
     snd (extract_text E U (s\<lparr>sanitization_attempted := False\<rparr>) input_path) \<or>
   (\<exists>b. processor_after (process_file E U s input_path output_dir) =
      (analyze_errors E U
         (snd (extract_text E U (s\<lparr>sanitization_attempted := False\<rparr>) input_path))
         (fst (extract_text E U (s\<lparr>sanitization_attempted := False\<rparr>) input_path)))
      \<lparr>sanitization_attempted := b\<rparr>)"
proof -
  have w: "processor_after (write_output E t retried output_path final_text) = t"
    for t retried output_path final_text
    by (simp add: write_output_def)
  have k: "\<exists>b. t = t\<lparr>sanitization_attempted := b\<rparr>" for t :: processor
    by (rule exI [of _ "sanitization_attempted t"]) simp
  show ?thesis
    using k
    by (auto simp: process_file_def Let_def w split: prod.splits sum.splits)
qed

lemma sanitize_text_unchanged:
  assumes "\<forall>c \<in> set t. \<not> is_control c \<and> \<not> is_surrogate c \<and> \<not> isspace c \<and>
             c \<noteq> 65533 \<and> c \<noteq> 173 \<and> c \<noteq> 8203"
  shows "sanitize_text t = t"
proof -
  have 1: "strip_controls t = t"
    using assms by (simp add: strip_controls_filter)
  have 2: "encode_decode_utf8_ignore t = t"
    using assms by (simp add: encode_decode_utf8_ignore_def)
  have 3: "apply_replacements sanitize_replacements t = t"
    using assms by (simp add: sanitize_replacements_filter)
  have 4: "collapse_whitespace t = t"
    using assms by (simp add: collapse_whitespace_unchanged)
  show ?thesis
    unfolding sanitize_text_def 1 2 3 4 blank_line_step_noop [of t, unfolded 1 2 3 4] ..
qed

lemma identity_formatter: "process_with_docling two_documents t = Inr (sanitize_text t)"
  by (simp add: process_with_docling_def staged_text_def two_documents_def example_env_def)

lemma no_marker_after_sanitizing: "65533 \<notin> set (sanitize_text t)"
  using sanitize_text_chars [of 65533 t] by auto

lemma two_documents_after:
  assumes "extract_text two_documents U (s\<lparr>sanitization_attempted := False\<rparr>) p = (raw, s1)"
    and "raw \<noteq> []"
  shows "processor_after (process_file two_documents U s p d) = analyze_errors two_documents U s1 raw"
proof -
  have io: "path_exists two_documents p"
    by (simp add: two_documents_def example_env_def)
  show ?thesis
    using assms
    by (simp add: process_file_def Let_def io identity_formatter no_marker_after_sanitizing
        write_output_def)
qed

lemma two_documents_returned:
  assumes "extract_text two_documents U (s\<lparr>sanitization_attempted := False\<rparr>) p = (raw, s1)"
    and "raw \<noteq> []"
    and "sanitize_text (enhance_structure U
           (auto_correct U (analyze_errors two_documents U s1 raw) raw)) = final_text"
    and "\<forall>c \<in> set final_text. \<not> is_surrogate c"
  shows "returned (process_file two_documents U s p d) = Inr (Some final_text)"
proof -
  have io: "path_exists two_documents p" "writable two_documents q" for q
    by (simp_all add: two_documents_def example_env_def)
  have "65533 \<notin> set final_text"
    using no_marker_after_sanitizing assms(3) by blast
  with assms show ?thesis
    by (simp add: process_file_def Let_def io identity_formatter write_output_def)
qed

lemma extraction_first:
  "extract_text two_documents latin1_tables s (ascii ''1.pdf'') =
     (first_document, s\<lparr>language := Portuguese\<rparr>)"
proof -
  have q: "evaluate_text_quality latin1_tables first_document = 4 / 5"
    by (simp add: first_document_def quality_defs)
  have t: "extract_with_fitz two_documents (ascii ''1.pdf'') = first_document"
    "extract_with_pdfplumber two_documents (ascii ''1.pdf'') = []"
    by (simp_all add: extract_with_fitz_def extract_with_pdfplumber_def two_documents_def
        example_env_def)
  have e: "str_count (112 # 238 # 115 # replicate 100 111) [111, 102] = 0"
    by (rule str_count_missing_char [of 102]) simp_all
  have l: "detect_language latin1_tables first_document = Portuguese"
    by (simp add: first_document_def detect_language_def pt_indicators_def en_indicators_def
        pt_words_def en_words_def latin1_tables_def latin1_lower_char_def ascii_def
        str_count_single count_list_replicate str_count_absent e)
  have n: "first_document \<noteq> []" by (simp add: first_document_def)
  show ?thesis
    by (simp add: extract_text_def methods_def best_extraction_def try_method_def t q l n Let_def)
qed

lemma extraction_second:
  "extract_text two_documents latin1_tables s (ascii ''2.pdf'') =
     (second_document, s\<lparr>language := Unknown\<rparr>)"
proof -
  have q: "evaluate_text_quality latin1_tables second_document = 4 / 5"
    by (simp add: second_document_def quality_defs)
  have p: "ascii ''2.pdf'' \<noteq> ascii ''1.pdf''" by (simp add: ascii_def)
  have t: "extract_with_fitz two_documents (ascii ''2.pdf'') = second_document"
    "extract_with_pdfplumber two_documents (ascii ''2.pdf'') = []"
    by (simp_all add: extract_with_fitz_def extract_with_pdfplumber_def two_documents_def
        example_env_def p)
  have l: "detect_language latin1_tables second_document = Unknown"
    by (simp add: second_document_def detect_language_def pt_indicators_def en_indicators_def
        pt_words_def en_words_def latin1_tables_def latin1_lower_char_def ascii_def
        str_count_single count_list_replicate str_count_absent)
  have n: "second_document \<noteq> []" by (simp add: second_document_def)
  show ?thesis
    by (simp add: extract_text_def methods_def best_extraction_def try_method_def t q l n Let_def)
qed

lemma no_invalid_chars:
  "re_findall (invalid_char latin1_tables) first_document = []"
  "re_findall (invalid_char latin1_tables) second_document = []"
  by (simp_all add: first_document_def second_document_def re_findall_def invalid_char_def
      re_findall_from_class word_def latin1_tables_def latin1_isalnum_def)

lemma pt_error_found:
  "matches pt_error (p, 80 # 238 # 83 # r, []) = [(Some 83, r, [])]"
  by (simp add: pt_error_def re_defs ascii_def)

lemma pt_errors_first: "re_findall pt_error first_document = [[80, 238, 83]]"
proof -
  have "re_findall_from pt_error (Some 83) (replicate 100 111) = []"
    by (rule re_findall_from_none [OF requires_pt_error]) simp
  then show ?thesis
    by (simp add: re_findall_def first_document_def pt_error_found)
qed

lemma no_hyphenated:
  "re_findall (hyphenated U) first_document = []"
  "re_findall (hyphenated U) second_document = []"
  by (simp_all add: first_document_def second_document_def
      re_findall_none [OF requires_hyphenated])

lemma utf8_detected: "chardet_detect two_documents b = None"
  by (simp add: two_documents_def example_env_def)

lemma pos_fix: "map_of common_fixes [80, 238, 83] = Some [80, 243, 115]"
  by (simp add: common_fixes_def ascii_def)

lemma analysis_first:
  "analyze_errors two_documents latin1_tables
     (init\<lparr>sanitization_attempted := False, language := Portuguese\<rparr>) first_document = pos_state"
  by (simp add: analyze_errors_def Let_def utf8_detected pt_errors_first no_invalid_chars
      no_hyphenated counter_update_def add_correction_def pos_fix init_def pos_state_def)

lemma analysis_second_fresh:
  "analyze_errors two_documents latin1_tables
     (init\<lparr>sanitization_attempted := False, language := Unknown\<rparr>) second_document =
   init\<lparr>language := Unknown, detected_encoding := Some (ascii ''utf-8'')\<rparr>"
  by (simp add: analyze_errors_def Let_def utf8_detected no_invalid_chars
      no_hyphenated counter_update_def init_def)

lemma analysis_second_used:
  "analyze_errors two_documents latin1_tables
     (pos_state\<lparr>sanitization_attempted := False, language := Unknown\<rparr>) second_document =
   pos_state\<lparr>language := Unknown\<rparr>"
  by (simp add: analyze_errors_def Let_def utf8_detected no_invalid_chars
      no_hyphenated counter_update_def add_correction_def pos_fix pos_state_def)


lemma auto_correct_plain:
  assumes "language s \<noteq> Portuguese"
    and "apply_replacements (correction_map s)
           (if \<not> isascii t then encode_decode_utf8_ignore t else t) = t'"
    and "45 \<notin> set t'" and "\<forall>c \<in> set t'. \<not> isspace c"
  shows "auto_correct U s t = t'"
  using assms
  by (simp add: auto_correct_def Let_def dehyphenate_unchanged collapse_whitespace_unchanged
      reattach_hyphen_unchanged)

lemma plain_chars:
  assumes "c \<in> {80, 238, 83, 243, 115, 120}"
  shows "\<not> is_control c \<and> \<not> is_surrogate c \<and> \<not> isspace c \<and> c \<noteq> 65533 \<and> c \<noteq> 173 \<and>
         c \<noteq> 8203 \<and> c \<noteq> 10"
  using assms by (auto simp: is_control_def is_surrogate_def isspace_def)

lemma final_text_plain:
  assumes "auto_correct U s t = u @ replicate 100 120" and "set u \<subseteq> {80, 238, 83, 243, 115}"
  shows "sanitize_text (enhance_structure U (auto_correct U s t)) = u @ replicate 100 120"
    and "\<forall>c \<in> set (u @ replicate 100 120). \<not> is_surrogate c"
proof -
  have c: "c \<in> {80, 238, 83, 243, 115, 120}" if "c \<in> set (u @ replicate 100 120)" for c
    using that assms(2) by auto
  have "10 \<notin> set (u @ replicate 100 120)"
    using c plain_chars by blast
  then have e: "enhance_structure U (u @ replicate 100 120) = u @ replicate 100 120"
    by (rule enhance_structure_unchanged)
  have "\<forall>c \<in> set (u @ replicate 100 120).
      \<not> is_control c \<and> \<not> is_surrogate c \<and> \<not> isspace c \<and> c \<noteq> 65533 \<and> c \<noteq> 173 \<and> c \<noteq> 8203"
    using c plain_chars by blast
  then have "sanitize_text (u @ replicate 100 120) = u @ replicate 100 120"
    by (rule sanitize_text_unchanged)
  then show "sanitize_text (enhance_structure U (auto_correct U s t)) = u @ replicate 100 120"
    by (simp only: assms(1) e)
  show "\<forall>c \<in> set (u @ replicate 100 120). \<not> is_surrogate c"
    using c plain_chars by blast
qed

lemma corrected_fresh:
  "auto_correct latin1_tables
     (init\<lparr>language := Unknown, detected_encoding := Some (ascii ''utf-8'')\<rparr>) second_document =
   [80, 238, 83] @ replicate 100 120"
  by (rule auto_correct_plain)
    (simp_all add: init_def second_document_def apply_replacements_def
      encode_decode_utf8_ignore_def is_surrogate_def isspace_def)

lemma corrected_used:
  "auto_correct latin1_tables (pos_state\<lparr>language := Unknown\<rparr>) second_document =
   [80, 243, 115] @ replicate 100 120"
proof (rule auto_correct_plain)
  have "replace_from [80, 238, 83] [80, 243, 115] (replicate 100 120) = replicate 100 120"
    by (rule replace_from_absent [of 80]) simp_all
  then show "apply_replacements (correction_map (pos_state\<lparr>language := Unknown\<rparr>))
      (if \<not> isascii second_document then encode_decode_utf8_ignore second_document
       else second_document) = [80, 243, 115] @ replicate 100 120"
    by (simp add: pos_state_def second_document_def apply_replacements_def str_replace_def
        encode_decode_utf8_ignore_def is_surrogate_def)
qed (simp_all add: pos_state_def isspace_def)

text \<open>
  Claim C2, as stated: every call of \<open>process_file\<close> starts by resetting every field of
  the processor, so that the error patterns and the correction map of one document never
  influence the processing of the next. It fails in \<open>two_documents\<close>: after \<open>1.pdf\<close> the
  correction map still holds the entry of the first document, and \<open>2.pdf\<close>, which a new
  processor returns as it is, comes out with its first three characters replaced by
  \<open>P\<close>, U+00F3, \<open>s\<close>.
\<close>

theorem first_document_changes_second:
  "correction_map (processor_after (process_file two_documents latin1_tables init
      (ascii ''1.pdf'') (ascii ''out''))) = [([80, 238, 83], [80, 243, 115])] \<and>
   returned (process_file two_documents latin1_tables init (ascii ''2.pdf'') (ascii ''out'')) =
     Inr (Some ([80, 238, 83] @ replicate 100 120)) \<and>
   returned (process_file two_documents latin1_tables
      (processor_after (process_file two_documents latin1_tables init
         (ascii ''1.pdf'') (ascii ''out'')))
      (ascii ''2.pdf'') (ascii ''out'')) =
     Inr (Some ([80, 243, 115] @ replicate 100 120))"
proof -
  have n: "first_document \<noteq> []" "second_document \<noteq> []"
    by (simp_all add: first_document_def second_document_def)
  have a: "processor_after (process_file two_documents latin1_tables init
      (ascii ''1.pdf'') (ascii ''out'')) = pos_state"
    using two_documents_after [OF extraction_first n(1)]
    by (simp add: analysis_first)
  have s1: "set [80, 238, 83] \<subseteq> {80, 238, 83, 243, 115}"
    and s2: "set [80, 243, 115] \<subseteq> {80, 238, 83, 243, 115}" by simp_all
  note fresh = final_text_plain [OF corrected_fresh s1]
  note used = final_text_plain [OF corrected_used s2]
  have f: "returned (process_file two_documents latin1_tables init (ascii ''2.pdf'')
      (ascii ''out'')) = Inr (Some ([80, 238, 83] @ replicate 100 120))"
  proof (rule two_documents_returned [OF extraction_second n(2)])
    show "sanitize_text (enhance_structure latin1_tables
        (auto_correct latin1_tables
           (analyze_errors two_documents latin1_tables
              (init\<lparr>sanitization_attempted := False, language := Unknown\<rparr>) second_document)
           second_document)) = [80, 238, 83] @ replicate 100 120"
      by (simp only: analysis_second_fresh fresh(1))
  qed (rule fresh(2))
  have u: "returned (process_file two_documents latin1_tables pos_state (ascii ''2.pdf'')
      (ascii ''out'')) = Inr (Some ([80, 243, 115] @ replicate 100 120))"
  proof (rule two_documents_returned [OF extraction_second n(2)])
    show "sanitize_text (enhance_structure latin1_tables
        (auto_correct latin1_tables
           (analyze_errors two_documents latin1_tables
              (pos_state\<lparr>sanitization_attempted := False, language := Unknown\<rparr>)
              second_document)
           second_document)) = [80, 243, 115] @ replicate 100 120"
      by (simp only: analysis_second_used used(1))
  qed (rule used(2))
  from a f u show ?thesis by (simp add: pos_state_def)
qed

text \<open>
  Claim C2, amended: a call of \<open>process_file\<close> resets \<open>sanitization_attempted\<close> only. When
  the input file does not exist the processor is otherwise returned as it was, and in
  every case each key of the correction map and of the error patterns from before the call
  is still there after it. (\<open>main_runs\<close> gives every file a processor of its own.)
\<close>

theorem only_the_flag_is_reset:
  "(\<not> path_exists E input_path \<longrightarrow>
      processor_after (process_file E U s input_path output_dir) =
        s\<lparr>sanitization_attempted := False\<rparr>) \<and>
   fst ` set (correction_map s) \<subseteq>
     fst ` set (correction_map (processor_after (process_file E U s input_path output_dir))) \<and>
   fst ` set (error_patterns s) \<subseteq>
     fst ` set (error_patterns (processor_after (process_file E U s input_path output_dir)))"
proof (intro conjI impI)
  assume "\<not> path_exists E input_path"
  then show "processor_after (process_file E U s input_path output_dir) =
      s\<lparr>sanitization_attempted := False\<rparr>"
    by (simp add: process_file_def)
next
  let ?s0 = "s\<lparr>sanitization_attempted := False\<rparr>"
  let ?s1 = "snd (extract_text E U ?s0 input_path)"
  let ?raw = "fst (extract_text E U ?s0 input_path)"
  have m: "fst ` set (correction_map s) \<subseteq> fst ` set (correction_map (analyze_errors E U ?s1 ?raw))"
    using analyze_errors_keeps(1) [of ?s1 E U ?raw] by (simp add: extract_text_keeps)
  have e: "fst ` set (error_patterns s) \<subseteq> fst ` set (error_patterns (analyze_errors E U ?s1 ?raw))"
    using analyze_errors_keeps(2) [of ?s1 E U ?raw] by (simp add: extract_text_keeps)
  let ?after = "processor_after (process_file E U s input_path output_dir)"
  from processor_after_cases [of E U s input_path output_dir]
  consider "?after = ?s0" | "?after = ?s1"
    | b where "?after = (analyze_errors E U ?s1 ?raw)\<lparr>sanitization_attempted := b\<rparr>"
    by blast
  then have d: "correction_map ?after = correction_map s \<and> error_patterns ?after = error_patterns s \<or>
      correction_map ?after = correction_map (analyze_errors E U ?s1 ?raw) \<and>
      error_patterns ?after = error_patterns (analyze_errors E U ?s1 ?raw)"
    by cases (simp_all add: extract_text_keeps)
  from d show "fst ` set (correction_map s) \<subseteq> fst ` set (correction_map ?after)"
  proof
    assume "correction_map ?after = correction_map s \<and> error_patterns ?after = error_patterns s"
    then show ?thesis by simp
  next
    assume "correction_map ?after = correction_map (analyze_errors E U ?s1 ?raw) \<and>
      error_patterns ?after = error_patterns (analyze_errors E U ?s1 ?raw)"
    then show ?thesis using m by simp
  qed
  from d show "fst ` set (error_patterns s) \<subseteq> fst ` set (error_patterns ?after)"
  proof
    assume "correction_map ?after = correction_map s \<and> error_patterns ?after = error_patterns s"
    then show ?thesis by simp
  next
    assume "correction_map ?after = correction_map (analyze_errors E U ?s1 ?raw) \<and>
      error_patterns ?after = error_patterns (analyze_errors E U ?s1 ?raw)"
    then show ?thesis using e by simp
  qed
qed

theorem only_the_flag_is_reset_witness:
  "\<not> path_exists missing_env (ascii ''1.pdf'') \<and>
   processor_after (process_file missing_env latin1_tables
      (english_state\<lparr>sanitization_attempted := True\<rparr>) (ascii ''1.pdf'') (ascii ''out'')) =
     english_state \<and>
   correction_map english_state = [([8364], ascii ''EUR'')]"
proof -
  have p: "\<not> path_exists missing_env (ascii ''1.pdf'')"
    by (simp add: missing_env_def)
  from only_the_flag_is_reset [of missing_env "ascii ''1.pdf''" latin1_tables
      "english_state\<lparr>sanitization_attempted := True\<rparr>" "ascii ''out''"] p
  show ?thesis by (simp add: english_state_def init_def)
qed

end
